theory Spec2Isabelle
  imports Main
begin

section \<open>Strings of the script\<close>

text \<open>
  The script \<^verbatim>\<open>blender_to_babylon.py\<close> builds paths and console lines from Python
  strings. A string is a \<^typ>\<open>string\<close>; the characters outside ASCII that the
  script prints are written as their UTF-8 bytes.
\<close>

definition backslash :: string where
  "backslash = [CHR 0x5C]"

definition cross_mark :: string where
  "cross_mark = [CHR 0xE2, CHR 0x9D, CHR 0x8C]"

definition check_mark :: string where
  "check_mark = [CHR 0xE2, CHR 0x9C, CHR 0x85]"

definition inbox_tray :: string where
  "inbox_tray = [CHR 0xF0, CHR 0x9F, CHR 0x93, CHR 0xA5]"

definition outbox_tray :: string where
  "outbox_tray = [CHR 0xF0, CHR 0x9F, CHR 0x93, CHR 0xA4]"

definition newline :: string where
  "newline = [CHR 0x0A]"

text \<open>
  \<^verbatim>\<open>str.replace(old, new)\<close>: every occurrence of \<open>old\<close>, found from left to right
  without overlap, is replaced by \<open>new\<close>. For an empty \<open>old\<close> Python puts \<open>new\<close>
  before every character and at the end.
\<close>

fun replace_scan :: "nat \<Rightarrow> string \<Rightarrow> string \<Rightarrow> string \<Rightarrow> string" where
  "replace_scan skip old new [] = []"
| "replace_scan (Suc k) old new (c # cs) = replace_scan k old new cs"
| "replace_scan 0 old new (c # cs) =
     (if take (length old) (c # cs) = old
      then new @ replace_scan (length old - 1) old new cs
      else c # replace_scan 0 old new cs)"

definition replace :: "string \<Rightarrow> string \<Rightarrow> string \<Rightarrow> string" where
  "replace s old new =
     (if old = [] then new @ concat (map (\<lambda>c. c # new) s)
      else replace_scan 0 old new s)"

text \<open>
  \<^verbatim>\<open>os.path.join(folder, name)\<close> on the script's platform (its folders are Windows
  paths), for a folder that does not end in a separator and a relative name without a
  drive, which is what the script passes.
\<close>

definition path_join :: "string \<Rightarrow> string \<Rightarrow> string" where
  "path_join folder name = folder @ backslash @ name"

text \<open>\<^verbatim>\<open>str(n)\<close> of a count, in decimal.\<close>

definition digit_char :: "nat \<Rightarrow> char" where
  "digit_char d = char_of (48 + d)"

function str_nat :: "nat \<Rightarrow> string" where
  "str_nat n = (if n < 10 then [digit_char n] else str_nat (n div 10) @ [digit_char (n mod 10)])"
  by pat_completeness auto
termination
  by (relation "measure id") auto

section \<open>Configuration\<close>

definition fbx_folder :: string where
  "fbx_folder = ''C:'' @ backslash @ ''Users'' @ backslash @ ''coder'' @ backslash
     @ ''Documents'' @ backslash @ ''Github'' @ backslash @ ''Sacred-Heart'' @ backslash
     @ ''client'' @ backslash @ ''public'' @ backslash @ ''Great Sword Pack''"

definition output_folder :: string where
  "output_folder = ''C:'' @ backslash @ ''Users'' @ backslash @ ''coder'' @ backslash
     @ ''Documents'' @ backslash @ ''Github'' @ backslash @ ''Sacred-Heart'' @ backslash
     @ ''client'' @ backslash @ ''public'' @ backslash @ ''GreatSwordPack''"

definition fbx_files :: "string list" where
  "fbx_files =
    [''Maria WProp J J Ong.fbx'',
     ''great sword idle.fbx'',
     ''great sword walk.fbx'',
     ''great sword run.fbx'',
     ''great sword attack.fbx'',
     ''great sword slash.fbx'',
     ''great sword blocking.fbx'',
     ''great sword casting.fbx'',
     ''great sword jump.fbx'',
     ''two handed sword death.fbx'',
     ''great sword kick.fbx'',
     ''great sword high spin attack.fbx'',
     ''great sword power up.fbx'']"

definition fbx_path :: "string \<Rightarrow> string" where
  "fbx_path fbx_file = path_join fbx_folder fbx_file"

definition glb_name :: "string \<Rightarrow> string" where
  "glb_name fbx_file = replace fbx_file ''.fbx'' ''.glb''"

definition glb_path :: "string \<Rightarrow> string" where
  "glb_path fbx_file = path_join output_folder (glb_name fbx_file)"

section \<open>The host application\<close>

text \<open>
  The script drives the 3D host through its scripting module \<^verbatim>\<open>bpy\<close>, which is not
  part of the repository. The model keeps of the host what the script reads: the loaded
  objects with their type, the collections of mesh, armature and action data blocks
  with their user counts, and the file system as the list of existing paths. What a
  host operation does to this state is a parameter of the model.
\<close>

record block =
  block_name :: string
  users :: nat

record object =
  obj_name :: string
  obj_type :: string
  obj_data :: string
  obj_action :: string
  selected :: bool

record world =
  objects :: "object list"
  meshes :: "block list"
  armatures :: "block list"
  actions :: "block list"
  files :: "string list"

text \<open>An exception that derives from Python's \<^verbatim>\<open>Exception\<close>, with its message.\<close>

datatype exn = Exception string

fun str_exn :: "exn \<Rightarrow> string" where
  "str_exn (Exception msg) = msg"

text \<open>
  The host calls of the script: \<^verbatim>\<open>bpy.ops.object.select_all(action=...)\<close>,
  \<^verbatim>\<open>bpy.ops.object.delete()\<close>, \<^verbatim>\<open>bpy.data.meshes.remove(block)\<close> and its two
  siblings (a block is named by its key in the collection),
  \<^verbatim>\<open>bpy.ops.import_scene.fbx(filepath=...)\<close> and
  \<^verbatim>\<open>bpy.ops.export_scene.gltf(filepath, export_format, export_animations,
  export_force_sampling)\<close>.
\<close>

datatype host_call =
    Select_all string
  | Object_delete
  | Meshes_remove string
  | Armatures_remove string
  | Actions_remove string
  | Import_fbx string
  | Export_gltf string string bool bool

text \<open>
  A host maps a call and the state it finds to the state it leaves, together with the
  exception it raised, if any. A call that raises may have changed the state before.
  Every call is taken to return.
\<close>

type_synonym host = "host_call \<Rightarrow> world \<Rightarrow> exn option \<times> world"

section \<open>Running the script\<close>

text \<open>
  The state of a run: the host's state, the lines printed so far, and a log of the host
  calls made so far, each with the state it was made in. The log is an observer: no
  step reads it.
\<close>

record run_state =
  world :: world
  out :: "string list"
  calls :: "(host_call \<times> world) list"

type_synonym step = "run_state \<Rightarrow> exn option \<times> run_state"

definition print_line :: "string \<Rightarrow> step" where
  "print_line s st = (None, st\<lparr>out := out st @ [s]\<rparr>)"

definition invoke :: "host \<Rightarrow> host_call \<Rightarrow> step" where
  "invoke h c st =
     (case h c (world st) of
        (r, w') \<Rightarrow> (r, st\<lparr>world := w', calls := calls st @ [(c, world st)]\<rparr>))"

text \<open>Statements in sequence: the first exception ends the sequence.\<close>

fun run_steps :: "step list \<Rightarrow> step" where
  "run_steps [] st = (None, st)"
| "run_steps (f # fs) st =
     (case f st of
        (Some e, st') \<Rightarrow> (Some e, st')
      | (None, st') \<Rightarrow> run_steps fs st')"

text \<open>\<^verbatim>\<open>try: body  except Exception as e: handler\<close>\<close>

definition py_try :: "step \<Rightarrow> (exn \<Rightarrow> step) \<Rightarrow> step" where
  "py_try body handler st =
     (case body st of
        (Some e, st') \<Rightarrow> handler e st'
      | (None, st') \<Rightarrow> (None, st'))"

text \<open>\<^verbatim>\<open>for x in xs: body\<close>: an exception that leaves the body ends the loop.\<close>

fun for_each :: "('a \<Rightarrow> step) \<Rightarrow> 'a list \<Rightarrow> step" where
  "for_each body [] st = (None, st)"
| "for_each body (x # xs) st =
     (case body x st of
        (Some e, st') \<Rightarrow> (Some e, st')
      | (None, st') \<Rightarrow> for_each body xs st')"

subsection \<open>Clearing the scene and the orphan data\<close>

definition lookup_users :: "block list \<Rightarrow> string \<Rightarrow> nat option" where
  "lookup_users bs n = map_option users (find (\<lambda>b. block_name b = n) bs)"

text \<open>
  \<^verbatim>\<open>for block in coll: if block.users == 0: coll.remove(block)\<close>. The loop visits the
  blocks that the collection holds when the loop starts; \<^verbatim>\<open>block.users\<close> is read
  when the block is visited. Reading a block that the host has removed meanwhile
  raises.
\<close>

fun purge :: "host \<Rightarrow> (world \<Rightarrow> block list) \<Rightarrow> (string \<Rightarrow> host_call) \<Rightarrow> string list \<Rightarrow> step" where
  "purge h coll rm [] st = (None, st)"
| "purge h coll rm (n # ns) st =
     (case lookup_users (coll (world st)) n of
        None \<Rightarrow> (Some (Exception ''StructRNA has been removed''), st)
      | Some u \<Rightarrow>
          if u = 0 then
            (case invoke h (rm n) st of
               (Some e, st') \<Rightarrow> (Some e, st')
             | (None, st') \<Rightarrow> purge h coll rm ns st')
          else purge h coll rm ns st)"

definition purge_all :: "host \<Rightarrow> (world \<Rightarrow> block list) \<Rightarrow> (string \<Rightarrow> host_call) \<Rightarrow> step" where
  "purge_all h coll rm st = purge h coll rm (map block_name (coll (world st))) st"

definition clear_scene :: "host \<Rightarrow> step list" where
  "clear_scene h =
     [invoke h (Select_all ''SELECT''),
      invoke h Object_delete]"

definition clear_orphan_data :: "host \<Rightarrow> step list" where
  "clear_orphan_data h =
     [purge_all h meshes Meshes_remove,
      purge_all h armatures Armatures_remove,
      purge_all h actions Actions_remove]"

definition scene_reset :: "host \<Rightarrow> step list" where
  "scene_reset h = clear_scene h @ clear_orphan_data h"

subsection \<open>One file\<close>

definition count_type :: "string \<Rightarrow> world \<Rightarrow> nat" where
  "count_type t w = length (filter (\<lambda>obj. obj_type obj = t) (objects w))"

definition found_line :: "nat \<Rightarrow> nat \<Rightarrow> string" where
  "found_line mesh_count armature_count =
     ''   Found: '' @ str_nat mesh_count @ '' meshes, '' @ str_nat armature_count @ '' armatures''"

definition report_counts :: step where
  "report_counts st =
     (let mesh_count = count_type ''MESH'' (world st);
          armature_count = count_type ''ARMATURE'' (world st)
      in print_line (found_line mesh_count armature_count) st)"

definition importing_line :: "string \<Rightarrow> string" where
  "importing_line fbx_file = inbox_tray @ '' Importing: '' @ fbx_file @ ''...''"

definition exporting_line :: "string \<Rightarrow> string" where
  "exporting_line fbx_file = outbox_tray @ '' Exporting: '' @ replace fbx_file ''.fbx'' ''.glb'' @ ''...''"

definition converted_line :: "string \<Rightarrow> string" where
  "converted_line fbx_file = check_mark @ '' Converted: '' @ fbx_file @ newline"

definition not_found_line :: "string \<Rightarrow> string" where
  "not_found_line fbx_file = cross_mark @ '' Not found: '' @ fbx_file"

definition error_line :: "string \<Rightarrow> exn \<Rightarrow> string" where
  "error_line fbx_file e =
     cross_mark @ '' Error converting '' @ fbx_file @ '': '' @ str_exn e @ newline"

text \<open>The body of the \<^verbatim>\<open>try\<close>, in the four parts that its comments head.\<close>

definition import_fbx :: "host \<Rightarrow> string \<Rightarrow> step list" where
  "import_fbx h fbx_file =
     [print_line (importing_line fbx_file),
      invoke h (Import_fbx (fbx_path fbx_file)),
      report_counts]"

definition export_glb :: "host \<Rightarrow> string \<Rightarrow> step list" where
  "export_glb h fbx_file =
     [invoke h (Select_all ''SELECT''),
      print_line (exporting_line fbx_file),
      invoke h (Export_gltf (glb_path fbx_file) ''GLB'' True True),
      print_line (converted_line fbx_file)]"

definition conversion :: "host \<Rightarrow> string \<Rightarrow> step list" where
  "conversion h fbx_file = scene_reset h @ import_fbx h fbx_file @ export_glb h fbx_file"

text \<open>The body of the loop; \<^verbatim>\<open>os.path.exists\<close> reads the file system of the host state.\<close>

definition convert_file :: "host \<Rightarrow> string \<Rightarrow> step" where
  "convert_file h fbx_file st =
     (if fbx_path fbx_file \<notin> set (files (world st))
      then print_line (not_found_line fbx_file) st
      else py_try (run_steps (conversion h fbx_file))
             (\<lambda>e. print_line (error_line fbx_file e)) st)"

subsection \<open>The whole script\<close>

definition rule50 :: string where
  "rule50 = replicate 50 (CHR ''='')"

definition opening_banner :: "string list" where
  "opening_banner =
     [newline @ rule50,
      ''FBX to GLB Batch Converter'',
      rule50 @ newline]"

definition closing_banner :: "string list" where
  "closing_banner = [rule50, ''Conversion Complete!'', rule50]"

definition next_steps :: "string list" where
  "next_steps =
     [newline @ ''Babylon files saved to: '' @ fbx_folder,
      newline @ ''Next steps:'',
      ''1. Check that .babylon files were created'',
      ''2. Update Player.ts to load .babylon files'',
      ''3. Refresh browser and test animations!'']"

definition batch :: "host \<Rightarrow> string list \<Rightarrow> step" where
  "batch h fs =
     run_steps (map print_line opening_banner @ [for_each (convert_file h) fs]
                @ map print_line closing_banner @ map print_line next_steps)"

definition script :: "host \<Rightarrow> step" where
  "script h = batch h fbx_files"

definition start :: "world \<Rightarrow> run_state" where
  "start w = \<lparr>world = w, out = [], calls = []\<rparr>"

section \<open>What the proofs ask of a host\<close>


definition select_all_objects :: "world \<Rightarrow> world" where
  "select_all_objects w = w\<lparr>objects := map (\<lambda>obj. obj\<lparr>selected := True\<rparr>) (objects w)\<rparr>"

definition without :: "string \<Rightarrow> block list \<Rightarrow> block list" where
  "without n bs = filter (\<lambda>b. block_name b \<noteq> n) bs"






section \<open>A reference host\<close>

text \<open>
  A small host that meets the contract, to run the script on. Deleting an object
  releases its data block and its action. An imported file brings a mesh object and an
  armature object, with one data block each and one action on the armature, under keys
  that are new in their collections. The exporter creates the file at the path.
\<close>

definition release :: "string \<Rightarrow> block list \<Rightarrow> block list" where
  "release n bs = map (\<lambda>b. if block_name b = n then b\<lparr>users := users b - 1\<rparr> else b) bs"

definition release_object :: "object \<Rightarrow> world \<Rightarrow> world" where
  "release_object obj w =
     w\<lparr>meshes := (if obj_type obj = ''MESH'' then release (obj_data obj) (meshes w) else meshes w),
       armatures := (if obj_type obj = ''ARMATURE'' then release (obj_data obj) (armatures w)
                     else armatures w),
       actions := release (obj_action obj) (actions w)\<rparr>"

definition longest :: "block list \<Rightarrow> nat" where
  "longest bs = foldr (\<lambda>b m. max (length (block_name b)) m) bs 0"

definition fresh_key :: "block list \<Rightarrow> string \<Rightarrow> string" where
  "fresh_key bs n =
     (if n \<in> set (map block_name bs) then n @ replicate (Suc (longest bs)) (CHR ''.'') else n)"

definition import_file :: "string \<Rightarrow> world \<Rightarrow> world" where
  "import_file p w =
     (let m = fresh_key (meshes w) p; a = fresh_key (armatures w) p; c = fresh_key (actions w) p
      in w\<lparr>objects := objects w @
             [\<lparr>obj_name = ''Body'', obj_type = ''MESH'', obj_data = m, obj_action = [],
               selected = True\<rparr>,
              \<lparr>obj_name = ''Armature'', obj_type = ''ARMATURE'', obj_data = a, obj_action = c,
               selected = True\<rparr>],
           meshes := meshes w @ [\<lparr>block_name = m, users = 1\<rparr>],
           armatures := armatures w @ [\<lparr>block_name = a, users = 1\<rparr>],
           actions := actions w @ [\<lparr>block_name = c, users = 1\<rparr>]\<rparr>)"

fun blender :: host where
  "blender (Select_all action) w =
     (if action = ''SELECT'' then (None, select_all_objects w)
      else (None, w\<lparr>objects := map (\<lambda>obj. obj\<lparr>selected := False\<rparr>) (objects w)\<rparr>))"
| "blender Object_delete w =
     (None, foldr release_object (filter selected (objects w))
              (w\<lparr>objects := filter (\<lambda>obj. \<not> selected obj) (objects w)\<rparr>))"
| "blender (Meshes_remove n) w =
     (if n \<in> set (map block_name (meshes w)) then (None, w\<lparr>meshes := without n (meshes w)\<rparr>)
      else (Some (Exception ''not in collection''), w))"
| "blender (Armatures_remove n) w =
     (if n \<in> set (map block_name (armatures w))
      then (None, w\<lparr>armatures := without n (armatures w)\<rparr>)
      else (Some (Exception ''not in collection''), w))"
| "blender (Actions_remove n) w =
     (if n \<in> set (map block_name (actions w)) then (None, w\<lparr>actions := without n (actions w)\<rparr>)
      else (Some (Exception ''not in collection''), w))"
| "blender (Import_fbx p) w =
     (if p \<in> set (files w) then (None, import_file p w)
      else (Some (Exception ''No such file''), w))"
| "blender (Export_gltf p fmt anim sampling) w =
     (None, w\<lparr>files := (if p \<in> set (files w) then files w else files w @ [p])\<rparr>)"

text \<open>The same host with a call that fails: it raises \<open>msg\<close> and changes nothing.\<close>

definition failing :: "host_call \<Rightarrow> string \<Rightarrow> host \<Rightarrow> host" where
  "failing bad msg h c w = (if c = bad then (Some (Exception msg), w) else h c w)"


definition disk :: "string list \<Rightarrow> world" where
  "disk ps = \<lparr>objects = [], meshes = [], armatures = [], actions = [], files = ps\<rparr>"

section \<open>Vocabulary of the properties\<close>

text \<open>
  The host calls that belong to a reset: selecting everything, deleting, and the
  removal of a block that has no user in the state the call is made in.
\<close>

definition reset_call :: "host_call \<times> world \<Rightarrow> bool" where
  "reset_call cw \<longleftrightarrow>
     (case cw of
        (Select_all action, w) \<Rightarrow> action = ''SELECT''
      | (Object_delete, w) \<Rightarrow> True
      | (Meshes_remove n, w) \<Rightarrow> lookup_users (meshes w) n = Some 0
      | (Armatures_remove n, w) \<Rightarrow> lookup_users (armatures w) n = Some 0
      | (Actions_remove n, w) \<Rightarrow> lookup_users (actions w) n = Some 0
      | (Import_fbx p, w) \<Rightarrow> False
      | (Export_gltf p fmt anim sampling, w) \<Rightarrow> False)"

text \<open>A step that prints nothing and logs only calls that satisfy \<open>P\<close>.\<close>

definition quiet :: "(host_call \<times> world \<Rightarrow> bool) \<Rightarrow> step \<Rightarrow> bool" where
  "quiet P f \<longleftrightarrow> (\<forall>st. \<exists>cs. calls (snd (f st)) = calls st @ cs \<and> list_all P cs \<and> out (snd (f st)) = out st)"

text \<open>
  The lines one file can add to the console: the notice of a missing file, the four
  lines of a conversion, or the lines printed up to a fault followed by the error
  notice.
\<close>

definition job_report :: "string \<Rightarrow> string list \<Rightarrow> bool" where
  "job_report f ls \<longleftrightarrow>
     ls = [not_found_line f] \<or>
     (\<exists>m a. ls = [importing_line f, found_line m a, exporting_line f, converted_line f]) \<or>
     (\<exists>e. ls = [error_line f e]) \<or>
     (\<exists>e. ls = [importing_line f, error_line f e]) \<or>
     (\<exists>e m a. ls = [importing_line f, found_line m a, error_line f e]) \<or>
     (\<exists>e m a. ls = [importing_line f, found_line m a, exporting_line f, error_line f e])"

text \<open>A line that reports the outcome of a file starts with one of the two marks.\<close>

definition outcome_line :: "string \<Rightarrow> bool" where
  "outcome_line l \<longleftrightarrow> take 3 l = cross_mark \<or> take 3 l = check_mark"

text \<open>
  The state in which the loop reaches the file at index \<open>k\<close>; the state a fault leaves,
  after the handler has printed its notice; the host calls made between two states.
\<close>

definition before_item :: "host \<Rightarrow> string list \<Rightarrow> nat \<Rightarrow> run_state \<Rightarrow> run_state" where
  "before_item h fs k st = snd (for_each (convert_file h) (take k fs) st)"

definition caught :: "string \<Rightarrow> exn \<Rightarrow> run_state \<Rightarrow> run_state" where
  "caught f e st = st\<lparr>out := out st @ [error_line f e]\<rparr>"

definition new_calls :: "run_state \<Rightarrow> run_state \<Rightarrow> (host_call \<times> world) list" where
  "new_calls st st' = drop (length (calls st)) (calls st')"








text \<open>Inputs to run the script on.\<close>

definition three_files :: "string list" where
  "three_files = [''great sword idle.fbx'', ''great sword walk.fbx'', ''great sword run.fbx'']"

definition corrupt_walk :: host where
  "corrupt_walk = failing (Import_fbx (fbx_path ''great sword walk.fbx'')) ''corrupt file'' blender"

definition idle :: string where
  "idle = ''great sword idle.fbx''"

definition walk :: string where
  "walk = ''great sword walk.fbx''"

definition disk_full :: host where
  "disk_full = failing (Export_gltf (glb_path ''great sword walk.fbx'') ''GLB'' True True) ''disk full'' blender"



section \<open>Sequencing, the loop and the log\<close>

lemma run_steps_append:
  "run_steps (fs @ gs) st =
     (case run_steps fs st of (Some e, st') \<Rightarrow> (Some e, st') | (None, st') \<Rightarrow> run_steps gs st')"
  by (induction fs arbitrary: st) (auto split: prod.splits option.splits)


lemma convert_file_returns: "fst (convert_file h f st) = None"
  by (auto simp: convert_file_def py_try_def print_line_def split: prod.splits option.splits)

lemma for_each_convert_returns: "fst (for_each (convert_file h) fs st) = None"
proof (induction fs arbitrary: st)
  case Nil
  show ?case by simp
next
  case (Cons f fs)
  obtain st' where "convert_file h f st = (None, st')"
    using convert_file_returns [of h f st] by (cases "convert_file h f st") auto
  then show ?case using Cons.IH by simp
qed

lemma for_each_convert_step:
  "for_each (convert_file h) (f # fs) st = for_each (convert_file h) fs (snd (convert_file h f st))"
  using convert_file_returns [of h f st] by (cases "convert_file h f st") auto

lemma run_prints:
  "run_steps (map print_line ls) st = (None, st\<lparr>out := out st @ ls\<rparr>)"
  by (induction ls arbitrary: st) (auto simp: print_line_def)

lemma batch_eq:
  "batch h fs st =
     (None, (snd (for_each (convert_file h) fs (st\<lparr>out := out st @ opening_banner\<rparr>)))
        \<lparr>out := out (snd (for_each (convert_file h) fs (st\<lparr>out := out st @ opening_banner\<rparr>)))
                 @ closing_banner @ next_steps\<rparr>)"
proof -
  let ?st1 = "st\<lparr>out := out st @ opening_banner\<rparr>"
  obtain st2 where l: "for_each (convert_file h) fs ?st1 = (None, st2)"
    using for_each_convert_returns [of h fs ?st1] by (cases "for_each (convert_file h) fs ?st1") auto
  have c: "run_steps (map print_line closing_banner @ map print_line next_steps) st2
            = (None, st2\<lparr>out := out st2 @ closing_banner @ next_steps\<rparr>)"
    using run_prints [of "closing_banner @ next_steps" st2] by simp
  show ?thesis
    unfolding batch_def using l c
    by (simp add: run_steps_append run_prints)
qed

lemma invoke_log:
  "calls (snd (invoke h c st)) = calls st @ [(c, world st)]"
  "out (snd (invoke h c st)) = out st"
  "world (snd (invoke h c st)) = snd (h c (world st))"
  "fst (invoke h c st) = fst (h c (world st))"
  by (simp_all add: invoke_def split: prod.splits)

lemma purge_log:
  assumes "\<And>n w. lookup_users (coll w) n = Some 0 \<Longrightarrow> P (rm n, w)"
  shows "\<exists>cs. calls (snd (purge h coll rm ns st)) = calls st @ cs \<and> list_all P cs
               \<and> out (snd (purge h coll rm ns st)) = out st"
proof (induction ns arbitrary: st)
  case Nil
  show ?case by simp
next
  case (Cons n ns)
  show ?case
  proof (cases "lookup_users (coll (world st)) n")
    case None
    then show ?thesis by simp
  next
    case (Some u)
    show ?thesis
    proof (cases "u = 0")
      case False
      with Some Cons.IH [of st] show ?thesis by simp
    next
      case True
      obtain r st1 where i: "invoke h (rm n) st = (r, st1)" by (cases "invoke h (rm n) st")
      have c1: "calls st1 = calls st @ [(rm n, world st)]" and o1: "out st1 = out st"
        using invoke_log(1,2) [of h "rm n" st] i by simp_all
      have p: "P (rm n, world st)" using assms Some True by simp
      show ?thesis
      proof (cases r)
        case (Some e)
        with i \<open>lookup_users (coll (world st)) n = Some u\<close> True c1 o1 p show ?thesis by simp
      next
        case None
        obtain cs where "calls (snd (purge h coll rm ns st1)) = calls st1 @ cs" "list_all P cs"
          "out (snd (purge h coll rm ns st1)) = out st1"
          using Cons.IH [of st1] by blast
        with None i \<open>lookup_users (coll (world st)) n = Some u\<close> True c1 o1 p show ?thesis by simp
      qed
    qed
  qed
qed

lemma purge_all_log:
  assumes "\<And>n w. lookup_users (coll w) n = Some 0 \<Longrightarrow> P (rm n, w)"
  shows "\<exists>cs. calls (snd (purge_all h coll rm st)) = calls st @ cs \<and> list_all P cs
               \<and> out (snd (purge_all h coll rm st)) = out st"
  unfolding purge_all_def using purge_log [of coll P rm h, OF assms] by blast

lemma quiet_run_steps:
  assumes "list_all (quiet P) fs"
  shows "quiet P (run_steps fs)"
  using assms
proof (induction fs)
  case Nil
  show ?case by (simp add: quiet_def)
next
  case (Cons f fs)
  then have qf: "quiet P f" and qr: "quiet P (run_steps fs)" by simp_all
  show ?case
    unfolding quiet_def
  proof
    fix st
    obtain r st1 where f: "f st = (r, st1)" by (cases "f st")
    obtain cs1 where 1: "calls st1 = calls st @ cs1" "list_all P cs1" "out st1 = out st"
      using qf f unfolding quiet_def by (metis snd_conv)
    obtain cs2 where 2: "calls (snd (run_steps fs st1)) = calls st1 @ cs2" "list_all P cs2"
        "out (snd (run_steps fs st1)) = out st1"
      using qr unfolding quiet_def by blast
    show "\<exists>cs. calls (snd (run_steps (f # fs) st)) = calls st @ cs \<and> list_all P cs \<and>
              out (snd (run_steps (f # fs) st)) = out st"
    proof (cases r)
      case (Some e)
      with f 1 show ?thesis by auto
    next
      case None
      with f 1 2 show ?thesis by auto
    qed
  qed
qed

lemma quiet_scene_reset: "quiet reset_call (run_steps (scene_reset h))"
proof (rule quiet_run_steps)
  have a: "quiet reset_call (invoke h (Select_all ''SELECT''))"
    unfolding quiet_def by (simp add: invoke_log reset_call_def)
  have b: "quiet reset_call (invoke h Object_delete)"
    unfolding quiet_def by (simp add: invoke_log reset_call_def)
  have c: "quiet reset_call (purge_all h meshes Meshes_remove)"
    unfolding quiet_def using purge_all_log [of meshes reset_call Meshes_remove h]
    by (simp add: reset_call_def)
  have d: "quiet reset_call (purge_all h armatures Armatures_remove)"
    unfolding quiet_def using purge_all_log [of armatures reset_call Armatures_remove h]
    by (simp add: reset_call_def)
  have e: "quiet reset_call (purge_all h actions Actions_remove)"
    unfolding quiet_def using purge_all_log [of actions reset_call Actions_remove h]
    by (simp add: reset_call_def)
  show "list_all (quiet reset_call) (scene_reset h)"
    using a b c d e by (simp add: scene_reset_def clear_scene_def clear_orphan_data_def)
qed

lemma import_fbx_run:
  "run_steps (import_fbx h f) st =
     (case h (Import_fbx (fbx_path f)) (world st) of
        (Some e, w') \<Rightarrow>
          (Some e, st\<lparr>world := w', out := out st @ [importing_line f],
                      calls := calls st @ [(Import_fbx (fbx_path f), world st)]\<rparr>)
      | (None, w') \<Rightarrow>
          (None, st\<lparr>world := w',
                    out := out st @ [importing_line f,
                                     found_line (count_type ''MESH'' w') (count_type ''ARMATURE'' w')],
                    calls := calls st @ [(Import_fbx (fbx_path f), world st)]\<rparr>))"
  by (simp add: import_fbx_def print_line_def invoke_def report_counts_def
      split: prod.splits option.splits)

lemma export_glb_run:
  "run_steps (export_glb h f) st =
     (case h (Select_all ''SELECT'') (world st) of
        (Some e, w1) \<Rightarrow>
          (Some e, st\<lparr>world := w1, calls := calls st @ [(Select_all ''SELECT'', world st)]\<rparr>)
      | (None, w1) \<Rightarrow>
          (case h (Export_gltf (glb_path f) ''GLB'' True True) w1 of
             (Some e, w2) \<Rightarrow>
               (Some e, st\<lparr>world := w2, out := out st @ [exporting_line f],
                           calls := calls st @ [(Select_all ''SELECT'', world st),
                                                (Export_gltf (glb_path f) ''GLB'' True True, w1)]\<rparr>)
           | (None, w2) \<Rightarrow>
               (None, st\<lparr>world := w2, out := out st @ [exporting_line f, converted_line f],
                         calls := calls st @ [(Select_all ''SELECT'', world st),
                                              (Export_gltf (glb_path f) ''GLB'' True True, w1)]\<rparr>)))"
  by (simp add: export_glb_def print_line_def invoke_def split: prod.splits option.splits)

section \<open>What one file prints\<close>

lemma conversion_run:
  "run_steps (conversion h f) st =
     (case run_steps (scene_reset h) st of
        (Some e, st0) \<Rightarrow> (Some e, st0)
      | (None, st0) \<Rightarrow>
          (case run_steps (import_fbx h f) st0 of
             (Some e, st1) \<Rightarrow> (Some e, st1)
           | (None, st1) \<Rightarrow> run_steps (export_glb h f) st1))"
  by (simp add: conversion_def run_steps_append split: prod.splits option.splits)

lemma reset_out: "out (snd (run_steps (scene_reset h) st)) = out st"
  using quiet_scene_reset [of h] unfolding quiet_def by blast

lemma convert_file_report:
  "\<exists>ls. out (snd (convert_file h f st)) = out st @ ls \<and> job_report f ls"
proof (cases "fbx_path f \<in> set (files (world st))")
  case False
  then show ?thesis by (simp add: convert_file_def print_line_def job_report_def)
next
  case True
  obtain r0 st0 where r: "run_steps (scene_reset h) st = (r0, st0)"
    by (cases "run_steps (scene_reset h) st")
  have o0: "out st0 = out st" using reset_out [of h st] r by simp
  show ?thesis
  proof (cases r0)
    case (Some e)
    with True r o0 show ?thesis
      by (auto simp: convert_file_def py_try_def conversion_run print_line_def job_report_def)
  next
    case None
    with True r o0 show ?thesis
      by (auto simp: convert_file_def py_try_def conversion_run print_line_def job_report_def
            import_fbx_run export_glb_run split: prod.splits option.splits)
  qed
qed

lemma job_report_outcome:
  "job_report f ls \<Longrightarrow> length (filter outcome_line ls) = 1"
  unfolding job_report_def
  by (auto simp: outcome_line_def not_found_line_def importing_line_def found_line_def
        exporting_line_def converted_line_def error_line_def cross_mark_def check_mark_def
        inbox_tray_def outbox_tray_def)

lemma job_report_no_banner:
  "job_report f ls \<Longrightarrow> ''Conversion Complete!'' \<notin> set ls"
  unfolding job_report_def
  by (auto simp: not_found_line_def importing_line_def found_line_def
        exporting_line_def converted_line_def error_line_def cross_mark_def check_mark_def
        inbox_tray_def outbox_tray_def)

lemma for_each_report:
  "\<exists>ls. out (snd (for_each (convert_file h) fs st)) = out st @ ls
        \<and> length (filter outcome_line ls) = length fs
        \<and> ''Conversion Complete!'' \<notin> set ls"
proof (induction fs arbitrary: st)
  case Nil
  show ?case by simp
next
  case (Cons f fs)
  let ?st1 = "snd (convert_file h f st)"
  obtain l1 where 1: "out ?st1 = out st @ l1" "job_report f l1"
    using convert_file_report by blast
  obtain l2 where 2: "out (snd (for_each (convert_file h) fs ?st1)) = out ?st1 @ l2"
      "length (filter outcome_line l2) = length fs" "''Conversion Complete!'' \<notin> set l2"
    using Cons.IH by blast
  have "out (snd (for_each (convert_file h) (f # fs) st)) = out st @ (l1 @ l2)"
    unfolding for_each_convert_step using 1 2 by simp
  moreover have "length (filter outcome_line (l1 @ l2)) = length (f # fs)"
    using job_report_outcome [OF 1(2)] 2(2) by simp
  moreover have "''Conversion Complete!'' \<notin> set (l1 @ l2)"
    using job_report_no_banner [OF 1(2)] 2(3) by simp
  ultimately show ?case by blast
qed

section \<open>The handler, the loop and the calls of one file\<close>

lemma convert_file_caught:
  assumes "fbx_path f \<in> set (files (world st))"
    and "fst (run_steps (conversion h f) st) = Some e"
  shows "convert_file h f st = (None, caught f e (snd (run_steps (conversion h f) st)))"
  using assms
  by (cases "run_steps (conversion h f) st")
     (simp add: convert_file_def py_try_def print_line_def caught_def)





lemma convert_file_calls:
  "calls (snd (convert_file h f st)) =
     (if fbx_path f \<in> set (files (world st)) then calls (snd (run_steps (conversion h f) st))
      else calls st)"
  by (cases "run_steps (conversion h f) st")
     (auto simp: convert_file_def py_try_def print_line_def split: option.splits)

lemma paths_differ: "fbx_path g \<noteq> glb_path f"
  by (simp add: fbx_path_def glb_path_def path_join_def fbx_folder_def output_folder_def backslash_def)

lemma run_steps_calls_grow:
  assumes "\<And>f st. f \<in> set fs \<Longrightarrow> \<exists>cs. calls (snd (f st)) = calls st @ cs"
  shows "\<exists>cs. calls (snd (run_steps fs st)) = calls st @ cs"
  using assms
proof (induction fs arbitrary: st)
  case Nil
  show ?case by simp
next
  case (Cons f fs)
  obtain r st1 where f: "f st = (r, st1)" by (cases "f st")
  obtain c1 where 1: "calls st1 = calls st @ c1"
    using Cons.prems [of f st] f by auto
  obtain c2 where 2: "calls (snd (run_steps fs st1)) = calls st1 @ c2"
    using Cons.IH [of st1] Cons.prems by auto
  show ?case using f 1 2 by (cases r) auto
qed

lemma conversion_first_call:
  "\<exists>rest. calls (snd (run_steps (conversion h f) st)) = calls st @ (Select_all ''SELECT'', world st) # rest"
proof -
  let ?rest = "invoke h Object_delete # clear_orphan_data h @ import_fbx h f @ export_glb h f"
  have steps: "conversion h f = invoke h (Select_all ''SELECT'') # ?rest"
    by (simp add: conversion_def scene_reset_def clear_scene_def)
  have grow: "\<exists>cs. calls (snd (run_steps ?rest st')) = calls st' @ cs" for st'
  proof (rule run_steps_calls_grow)
    fix g st
    assume "g \<in> set ?rest"
    then consider "g = invoke h Object_delete" | "g = purge_all h meshes Meshes_remove"
      | "g = purge_all h armatures Armatures_remove" | "g = purge_all h actions Actions_remove"
      | "g = print_line (importing_line f)" | "g = invoke h (Import_fbx (fbx_path f))"
      | "g = report_counts" | "g = invoke h (Select_all ''SELECT'')"
      | "g = print_line (exporting_line f)" | "g = invoke h (Export_gltf (glb_path f) ''GLB'' True True)"
      | "g = print_line (converted_line f)"
      by (auto simp: clear_orphan_data_def import_fbx_def export_glb_def)
    then show "\<exists>cs. calls (snd (g st)) = calls st @ cs"
    proof cases
      case 2
      then show ?thesis using purge_all_log [of meshes "\<lambda>_. True" Meshes_remove h st] by auto
    next
      case 3
      then show ?thesis using purge_all_log [of armatures "\<lambda>_. True" Armatures_remove h st] by auto
    next
      case 4
      then show ?thesis using purge_all_log [of actions "\<lambda>_. True" Actions_remove h st] by auto
    qed (simp_all add: invoke_log print_line_def report_counts_def)
  qed
  obtain r st1 where i: "invoke h (Select_all ''SELECT'') st = (r, st1)"
    by (cases "invoke h (Select_all ''SELECT'') st")
  have c1: "calls st1 = calls st @ [(Select_all ''SELECT'', world st)]"
    using invoke_log(1) [of h "Select_all ''SELECT''" st] i by simp
  obtain cs where cs: "calls (snd (run_steps ?rest st1)) = calls st1 @ cs"
    using grow by blast
  show ?thesis
    unfolding steps using i c1 cs by (cases r) auto
qed

section \<open>The reset under the host contract\<close>
























section \<open>Every import starts in an empty scene\<close>











section \<open>The reference host meets the contract\<close>













section \<open>Evaluation on concrete inputs\<close>

lemma fbx_path_eq: "fbx_path f = fbx_path g \<longleftrightarrow> f = g"
  by (simp add: fbx_path_def path_join_def)

lemma glb_path_eq: "glb_path f = glb_path g \<longleftrightarrow> glb_name f = glb_name g"
  by (simp add: glb_path_def path_join_def)

lemmas run_defs =
  convert_file_def py_try_def conversion_def scene_reset_def clear_scene_def clear_orphan_data_def
  import_fbx_def export_glb_def invoke_def purge_all_def print_line_def report_counts_def
  start_def disk_def select_all_objects_def import_file_def fresh_key_def failing_def
  lookup_users_def release_object_def release_def without_def before_item_def caught_def
  Let_def new_calls_def fbx_path_eq paths_differ paths_differ [symmetric] three_files_def corrupt_walk_def


section \<open>The naming of the output\<close>

text \<open>
  C4. For every file name of the job list, the name of the output is the stem of the
  input followed by \<open>.glb\<close>, where the input is the stem followed by \<open>.fbx\<close>: nothing
  else of the name changes. For \<open>great sword attack.fbx\<close> it is \<open>great sword attack.glb\<close>.
\<close>

theorem glb_names_of_job_list:
  "map glb_name fbx_files = map (\<lambda>f. take (length f - 4) f @ ''.glb'') fbx_files \<and>
   fbx_files = map (\<lambda>f. take (length f - 4) f @ ''.fbx'') fbx_files \<and>
   glb_name ''great sword attack.fbx'' = ''great sword attack.glb''"
  by (simp add: glb_name_def replace_def fbx_files_def)

section \<open>Completion\<close>

text \<open>
  C5. For every list of files, of any length, and every host, the batch returns without
  an exception, and what it printed is the opening banner, the lines of the files with
  one outcome line per file, and then the closing banner and the hints: the line
  \<open>Conversion Complete!\<close> stands in the output exactly once.
\<close>

theorem batch_completes:
  "fst (batch h fs (start w)) = None \<and>
   count_list (out (snd (batch h fs (start w)))) ''Conversion Complete!'' = 1 \<and>
   (\<exists>ls. out (snd (batch h fs (start w))) = opening_banner @ ls @ closing_banner @ next_steps
         \<and> length (filter outcome_line ls) = length fs)"
proof -
  let ?st1 = "(start w)\<lparr>out := out (start w) @ opening_banner\<rparr>"
  obtain ls where ls: "out (snd (for_each (convert_file h) fs ?st1)) = out ?st1 @ ls"
      "length (filter outcome_line ls) = length fs" "''Conversion Complete!'' \<notin> set ls"
    using for_each_report by blast
  have o: "out (snd (batch h fs (start w))) = opening_banner @ ls @ closing_banner @ next_steps"
    using ls(1) by (simp add: batch_eq start_def)
  have c0: "count_list ls ''Conversion Complete!'' = 0"
    using ls(3) by (simp add: count_list_0_iff)
  have r: "rule50 \<noteq> ''Conversion Complete!''"
  proof
    assume "rule50 = ''Conversion Complete!''"
    then have "length rule50 = length ''Conversion Complete!''" by (rule arg_cong)
    then show False by (simp add: rule50_def)
  qed
  have c1: "count_list (opening_banner @ ls @ closing_banner @ next_steps) ''Conversion Complete!'' = 1"
    using c0 r by (simp add: opening_banner_def closing_banner_def next_steps_def newline_def)
  show ?thesis using o c1 ls(2) by (simp add: batch_eq)
qed

section \<open>Missing source files\<close>

text \<open>
  C2. A file whose source path does not exist when the loop reaches it is reported with
  the \<open>Not found\<close> notice and nothing else happens for it: the result does not depend
  on the host, the host state is unchanged, no host call is logged, no exception
  leaves the body, and the loop goes on with the next file.
\<close>

theorem missing_source_skipped:
  assumes "fbx_path f \<notin> set (files (world st))"
  shows "convert_file h f st = (None, st\<lparr>out := out st @ [not_found_line f]\<rparr>) \<and>
         world (snd (convert_file h f st)) = world st \<and>
         calls (snd (convert_file h f st)) = calls st \<and>
         for_each (convert_file h) (f # fs) st
           = for_each (convert_file h) fs (st\<lparr>out := out st @ [not_found_line f]\<rparr>)"
  using assms by (simp add: convert_file_def print_line_def)

theorem missing_source_skipped_witness:
  "fbx_path ''great sword idle.fbx'' \<notin> set (files (world (start (disk [])))) \<and>
   convert_file blender ''great sword idle.fbx'' (start (disk []))
     = (None, (start (disk []))\<lparr>out := out (start (disk [])) @ [not_found_line ''great sword idle.fbx'']\<rparr>) \<and>
   calls (snd (convert_file blender ''great sword idle.fbx'' (start (disk [])))) = calls (start (disk []))"
proof -
  have h: "fbx_path ''great sword idle.fbx'' \<notin> set (files (world (start (disk []))))"
    by (simp add: start_def disk_def)
  show ?thesis
    using h missing_source_skipped [OF h, of blender "[]"] by simp
qed

section \<open>Faults\<close>



text \<open>
  C10. The handler only prints: a conversion that raises leaves the host state and the
  log as they were when the exception was raised. With no further file that state is
  the final one; a next file that is missing leaves it as it is; a next file that
  exists starts its reset in it.
\<close>

theorem fault_leaves_scene:
  assumes "fbx_path f \<in> set (files (world st))"
    and "run_steps (conversion h f) st = (Some e, st1)"
  shows "convert_file h f st = (None, caught f e st1) \<and>
         world (caught f e st1) = world st1 \<and>
         calls (caught f e st1) = calls st1 \<and>
         for_each (convert_file h) [f] st = (None, caught f e st1) \<and>
         (if fbx_path g \<in> set (files (world st1))
          then \<exists>rest. calls (snd (for_each (convert_file h) [f, g] st))
                        = calls st1 @ (Select_all ''SELECT'', world st1) # rest
          else world (snd (for_each (convert_file h) [f, g] st)) = world st1)"
proof -
  have c: "convert_file h f st = (None, caught f e st1)"
    using convert_file_caught [of f st h e] assms by simp
  have w: "world (caught f e st1) = world st1" "calls (caught f e st1) = calls st1"
    by (simp_all add: caught_def)
  have two: "for_each (convert_file h) [f, g] st = convert_file h g (caught f e st1)"
    using c by (cases "convert_file h g (caught f e st1)") (auto split: option.splits)
  have nxt: "if fbx_path g \<in> set (files (world st1))
          then \<exists>rest. calls (snd (for_each (convert_file h) [f, g] st))
                        = calls st1 @ (Select_all ''SELECT'', world st1) # rest
          else world (snd (for_each (convert_file h) [f, g] st)) = world st1"
  proof (cases "fbx_path g \<in> set (files (world st1))")
    case True
    then show ?thesis
      using conversion_first_call [of h g "caught f e st1"] w two
      by (simp add: convert_file_calls)
  next
    case False
    then show ?thesis
      using w two by (simp add: convert_file_def print_line_def)
  qed
  show ?thesis using c w nxt by simp
qed

theorem fault_leaves_scene_witness:
  "fbx_path walk \<in> set (files (world (start (disk [fbx_path walk, fbx_path ''great sword run.fbx''])))) \<and>
   run_steps (conversion disk_full walk) (start (disk [fbx_path walk, fbx_path ''great sword run.fbx'']))
     = (Some (Exception ''disk full''),
        snd (run_steps (conversion disk_full walk) (start (disk [fbx_path walk, fbx_path ''great sword run.fbx''])))) \<and>
   length (objects (world (snd (run_steps (conversion disk_full walk)
       (start (disk [fbx_path walk, fbx_path ''great sword run.fbx''])))))) = 2 \<and>
   convert_file disk_full walk (start (disk [fbx_path walk, fbx_path ''great sword run.fbx'']))
     = (None, caught walk (Exception ''disk full'')
          (snd (run_steps (conversion disk_full walk) (start (disk [fbx_path walk, fbx_path ''great sword run.fbx'']))))) \<and>
   (\<exists>rest. calls (snd (for_each (convert_file disk_full) [walk, ''great sword run.fbx'']
                         (start (disk [fbx_path walk, fbx_path ''great sword run.fbx'']))))
      = calls (snd (run_steps (conversion disk_full walk) (start (disk [fbx_path walk, fbx_path ''great sword run.fbx'']))))
        @ (Select_all ''SELECT'',
           world (snd (run_steps (conversion disk_full walk) (start (disk [fbx_path walk, fbx_path ''great sword run.fbx''])))))
        # rest) \<and>
   world (snd (for_each (convert_file disk_full) [walk, ''great sword jump.fbx'']
                (start (disk [fbx_path walk, fbx_path ''great sword run.fbx'']))))
     = world (snd (run_steps (conversion disk_full walk) (start (disk [fbx_path walk, fbx_path ''great sword run.fbx'']))))"
proof -
  let ?st = "start (disk [fbx_path walk, fbx_path ''great sword run.fbx''])"
  let ?st1 = "snd (run_steps (conversion disk_full walk) ?st)"
  have a: "fbx_path walk \<in> set (files (world ?st))"
    by (simp add: run_defs)
  have "fst (run_steps (conversion disk_full walk) ?st) = Some (Exception ''disk full'')"
    by (simp add: run_defs walk_def disk_full_def glb_path_def)
  then have b: "run_steps (conversion disk_full walk) ?st = (Some (Exception ''disk full''), ?st1)"
    by (metis prod.collapse)
  have f: "files (world ?st1) = [fbx_path walk, fbx_path ''great sword run.fbx'']"
    by (simp add: run_defs walk_def disk_full_def glb_path_def)
  have n: "length (objects (world ?st1)) = 2"
    by (simp add: run_defs walk_def disk_full_def glb_path_def)
  have g1: "fbx_path ''great sword run.fbx'' \<in> set (files (world ?st1))"
    using f by simp
  have g2: "fbx_path ''great sword jump.fbx'' \<notin> set (files (world ?st1))"
    using f by (simp add: fbx_path_eq walk_def)
  note t = fault_leaves_scene [OF a b]
  have c: "convert_file disk_full walk ?st = (None, caught walk (Exception ''disk full'') ?st1)"
    using t [of "[]"] by blast
  have r1: "\<exists>rest. calls (snd (for_each (convert_file disk_full) [walk, ''great sword run.fbx''] ?st))
      = calls ?st1 @ (Select_all ''SELECT'', world ?st1) # rest"
    using g1 t [of "''great sword run.fbx''"] by (simp only: if_True)
  have r2: "world (snd (for_each (convert_file disk_full) [walk, ''great sword jump.fbx''] ?st)) = world ?st1"
    using g2 t [of "''great sword jump.fbx''"] by (simp only: if_False)
  show ?thesis
    using a b n c r1 r2 by blast
qed

section \<open>The export\<close>



text \<open>
  C9. When the steps before the export have succeeded and a file already exists at the
  destination path, the exporter is called with that path all the same; the state
  after the file is the one the exporter left, and the lines printed are the export
  notice followed by the success or the error notice. The only path whose existence
  the script tests is a source path, which is never a destination path.
\<close>

theorem export_unconditional:
  assumes "fbx_path f \<in> set (files (world st))"
    and "run_steps (scene_reset h @ import_fbx h f) st = (None, st1)"
    and "h (Select_all ''SELECT'') (world st1) = (None, w2)"
    and "glb_path f \<in> set (files w2)"
  shows "calls (snd (convert_file h f st))
           = calls st1 @ [(Select_all ''SELECT'', world st1),
                          (Export_gltf (glb_path f) ''GLB'' True True, w2)] \<and>
         world (snd (convert_file h f st)) = snd (h (Export_gltf (glb_path f) ''GLB'' True True) w2) \<and>
         out (snd (convert_file h f st))
           = out st1 @ [exporting_line f,
                        (case fst (h (Export_gltf (glb_path f) ''GLB'' True True) w2) of
                           None \<Rightarrow> converted_line f
                         | Some e \<Rightarrow> error_line f e)] \<and>
         (\<forall>g. fbx_path g \<noteq> glb_path f)"
proof -
  have c: "run_steps (conversion h f) st = run_steps (export_glb h f) st1"
    using assms(2) run_steps_append [of "scene_reset h @ import_fbx h f" "export_glb h f" st]
    by (simp add: conversion_def)
  obtain r w3 where e: "h (Export_gltf (glb_path f) ''GLB'' True True) w2 = (r, w3)"
    by (cases "h (Export_gltf (glb_path f) ''GLB'' True True) w2")
  show ?thesis
    using assms(1,3) c e paths_differ
    by (cases r)
       (simp_all add: convert_file_def py_try_def export_glb_run print_line_def)
qed

theorem export_unconditional_witness:
  "fbx_path idle \<in> set (files (world (start (disk [fbx_path idle, glb_path idle])))) \<and>
   run_steps (scene_reset blender @ import_fbx blender idle) (start (disk [fbx_path idle, glb_path idle]))
     = (None, snd (run_steps (scene_reset blender @ import_fbx blender idle)
                     (start (disk [fbx_path idle, glb_path idle])))) \<and>
   glb_path idle \<in> set (files (select_all_objects (world (snd (run_steps (scene_reset blender @ import_fbx blender idle)
                     (start (disk [fbx_path idle, glb_path idle]))))))) \<and>
   out (snd (convert_file blender idle (start (disk [fbx_path idle, glb_path idle]))))
     = [importing_line idle, found_line 1 1, exporting_line idle, converted_line idle] \<and>
   fst (last (calls (snd (convert_file blender idle (start (disk [fbx_path idle, glb_path idle]))))))
     = Export_gltf (glb_path idle) ''GLB'' True True"
proof -
  let ?st = "start (disk [fbx_path idle, glb_path idle])"
  let ?st1 = "snd (run_steps (scene_reset blender @ import_fbx blender idle) ?st)"
  have a: "fbx_path idle \<in> set (files (world ?st))"
    by (simp add: run_defs)
  have "fst (run_steps (scene_reset blender @ import_fbx blender idle) ?st) = None"
    by (simp add: run_defs)
  then have b: "run_steps (scene_reset blender @ import_fbx blender idle) ?st = (None, ?st1)"
    by (metis prod.collapse)
  have c: "blender (Select_all ''SELECT'') (world ?st1) = (None, select_all_objects (world ?st1))"
    by simp
  have d: "glb_path idle \<in> set (files (select_all_objects (world ?st1)))"
    by (simp add: run_defs)
  have o: "out ?st1 = [importing_line idle, found_line 1 1]"
    by (simp add: run_defs count_type_def)
  have e: "fst (blender (Export_gltf (glb_path idle) ''GLB'' True True) (select_all_objects (world ?st1))) = None"
    by simp
  show ?thesis
    using a b d o e export_unconditional [OF a b c d] by simp
qed

section \<open>The scene reset\<close>






section \<open>Isolation between files\<close>



end
